theory Spec2Isabelle
  imports Complex_Main
begin

section \<open>The Python values the two programs compute with\<close>

text \<open>
  Both programs are Python 3. A Python \<open>str\<close> is a sequence of code points; every code
  point the programs inspect lies below 256 (the digits, \<open>+ - = C\<close>, the letters of the
  three choices, and the calculator's glyphs U+00D7 and U+00F7), so a string is a
  \<^typ>\<open>string\<close> whose characters are those code points. The three emoji of the round
  messages lie outside that range; they are only stored, never inspected, and are written
  here as their UTF-8 bytes. Python's \<open>int\<close> is unbounded and is \<^typ>\<open>int\<close>.

  Resource limits of the interpreter (memory, the compiler's recursion depth on very long
  operator chains, the optional cap on the number of digits converted between \<open>int\<close> and
  \<open>str\<close>) are outside the model.
\<close>

subsection \<open>Exceptions\<close>

datatype exc = SyntaxError | ZeroDivisionError | OverflowError

subsection \<open>\<open>str(int)\<close>\<close>

definition digit_char :: "int \<Rightarrow> char" where
  "digit_char d = ''0123456789'' ! nat d"

function digits_of :: "int \<Rightarrow> string" where
  "digits_of n = (if n < 10 then [digit_char n] else digits_of (n div 10) @ [digit_char (n mod 10)])"
  by pat_completeness auto
termination
  by (relation "measure nat") auto

declare digits_of.simps [simp del]

definition str_int :: "int \<Rightarrow> string" where
  "str_int n = (if n < 0 then CHR ''-'' # digits_of (- n) else digits_of n)"

subsection \<open>Binary64 floats\<close>

text \<open>
  A Python \<open>float\<close> is an IEEE 754 binary64 number. \<open>Finite m e\<close> is the number
  \<open>m * 2^e\<close>, kept in lowest terms (\<open>m\<close> odd, or \<open>m = 0\<close> and \<open>e = 0\<close>) so that equal
  numbers are equal terms. Negative zero is not represented: neither program can produce
  it (the calculator has no unary minus, so every product and quotient is of
  non-negative operands, and a difference of equal floats is \<open>+0.0\<close>; the game divides
  non-negative counters).
\<close>

datatype pyfloat = Finite int int | PosInf | NegInf | NaN

function bit_length :: "int \<Rightarrow> nat" where
  "bit_length n = (if n \<le> 0 then 0 else Suc (bit_length (n div 2)))"
  by pat_completeness auto
termination
  by (relation "measure nat") auto

declare bit_length.simps [simp del]

definition floor_log2 :: "int \<Rightarrow> int \<Rightarrow> int" where
  \<comment> \<open>\<open>\<lfloor>log\<^sub>2 (a / b)\<rfloor>\<close> for positive \<open>a\<close>, \<open>b\<close>\<close>
  "floor_log2 a b =
     (let k = int (bit_length a) - int (bit_length b)
      in if b * 2 ^ nat k \<le> a * 2 ^ nat (- k) then k else k - 1)"

definition round_half_even :: "int \<Rightarrow> int \<Rightarrow> int" where
  \<comment> \<open>the integer nearest to \<open>n / d\<close> for \<open>0 \<le> n\<close>, \<open>0 < d\<close>, a tie going to the even one\<close>
  "round_half_even n d =
     (let q = n div d; r = n mod d
      in if 2 * r < d then q else if d < 2 * r then q + 1 else if even q then q else q + 1)"

function normalise :: "int \<Rightarrow> int \<Rightarrow> pyfloat" where
  "normalise m e =
     (if m = 0 then Finite 0 0
      else if even m then normalise (m div 2) (e + 1)
      else Finite m e)"
  by pat_completeness auto
termination
  by (relation "measure (\<lambda>(m, e). nat \<bar>m\<bar>)") auto

declare normalise.simps [simp del]

definition to_double :: "int \<Rightarrow> int \<Rightarrow> pyfloat option" where
  \<comment> \<open>the binary64 number nearest to \<open>a / b\<close> (\<open>0 < b\<close>), round-half-even on the 53-bit
      significand, gradual underflow below \<open>2^-1022\<close>; \<open>None\<close> when the rounded value
      is \<open>2^1024\<close> or more\<close>
  "to_double a b =
     (if a = 0 then Some (Finite 0 0)
      else
        let sh = max (floor_log2 \<bar>a\<bar> b) (- 1022) - 52;
            m = round_half_even (\<bar>a\<bar> * 2 ^ nat (- sh)) (b * 2 ^ nat sh)
        in if 971 < sh \<or> (sh = 971 \<and> 2 ^ 53 \<le> m) then None
           else Some (normalise (sgn a * m) sh))"

definition round_or_inf :: "int \<Rightarrow> int \<Rightarrow> pyfloat" where
  \<comment> \<open>float arithmetic overflows to an infinity\<close>
  "round_or_inf a b =
     (case to_double a b of Some x \<Rightarrow> x | None \<Rightarrow> if a < 0 then NegInf else PosInf)"

definition round_scaled :: "int \<Rightarrow> int \<Rightarrow> pyfloat" where
  \<comment> \<open>the float nearest to \<open>n * 2^e\<close>\<close>
  "round_scaled n e = round_or_inf (n * 2 ^ nat e) (2 ^ nat (- e))"

definition int_to_float :: "int \<Rightarrow> exc + pyfloat" where
  \<comment> \<open>the conversion of an \<open>int\<close> operand of a mixed operation\<close>
  "int_to_float n = (case to_double n 1 of None \<Rightarrow> Inl OverflowError | Some x \<Rightarrow> Inr x)"

definition int_truediv :: "int \<Rightarrow> int \<Rightarrow> exc + pyfloat" where
  \<comment> \<open>\<open>a / b\<close> on two \<open>int\<close>s: the correctly rounded quotient\<close>
  "int_truediv a b =
     (if b = 0 then Inl ZeroDivisionError
      else case to_double (a * sgn b) \<bar>b\<bar> of None \<Rightarrow> Inl OverflowError | Some x \<Rightarrow> Inr x)"

fun float_neg :: "pyfloat \<Rightarrow> pyfloat" where
  "float_neg (Finite m e) = Finite (- m) e"
| "float_neg PosInf = NegInf"
| "float_neg NegInf = PosInf"
| "float_neg NaN = NaN"

fun float_add :: "pyfloat \<Rightarrow> pyfloat \<Rightarrow> pyfloat" where
  "float_add NaN y = NaN"
| "float_add x NaN = NaN"
| "float_add PosInf NegInf = NaN"
| "float_add NegInf PosInf = NaN"
| "float_add PosInf y = PosInf"
| "float_add NegInf y = NegInf"
| "float_add x PosInf = PosInf"
| "float_add x NegInf = NegInf"
| "float_add (Finite m1 e1) (Finite m2 e2) =
     (let e = min e1 e2 in round_scaled (m1 * 2 ^ nat (e1 - e) + m2 * 2 ^ nat (e2 - e)) e)"

definition float_sub :: "pyfloat \<Rightarrow> pyfloat \<Rightarrow> pyfloat" where
  "float_sub x y = float_add x (float_neg y)"

fun float_sign :: "pyfloat \<Rightarrow> int" where
  "float_sign (Finite m e) = sgn m"
| "float_sign PosInf = 1"
| "float_sign NegInf = - 1"
| "float_sign NaN = 0"

fun float_mul :: "pyfloat \<Rightarrow> pyfloat \<Rightarrow> pyfloat" where
  "float_mul NaN y = NaN"
| "float_mul x NaN = NaN"
| "float_mul (Finite m1 e1) (Finite m2 e2) = round_scaled (m1 * m2) (e1 + e2)"
| "float_mul x y =
     (let s = float_sign x * float_sign y
      in if s = 0 then NaN else if s < 0 then NegInf else PosInf)"

fun is_inf :: "pyfloat \<Rightarrow> bool" where
  "is_inf PosInf = True"
| "is_inf NegInf = True"
| "is_inf x = False"

fun float_truediv :: "pyfloat \<Rightarrow> pyfloat \<Rightarrow> exc + pyfloat" where
  "float_truediv x (Finite m2 e2) =
     (if m2 = 0 then Inl ZeroDivisionError
      else case x of
        Finite m1 e1 \<Rightarrow>
          Inr (round_or_inf (m1 * sgn m2 * 2 ^ nat (e1 - e2)) (\<bar>m2\<bar> * 2 ^ nat (e2 - e1)))
      | NaN \<Rightarrow> Inr NaN
      | _ \<Rightarrow> Inr (if float_sign x * sgn m2 < 0 then NegInf else PosInf))"
| "float_truediv x NaN = Inr NaN"
| "float_truediv x y = Inr (if is_inf x \<or> x = NaN then NaN else Finite 0 0)"

subsection \<open>\<open>str(float)\<close> and the format \<open>.1f\<close>\<close>

definition floor_log10 :: "int \<Rightarrow> int \<Rightarrow> int" where
  \<comment> \<open>\<open>\<lfloor>log\<^sub>1\<^sub>0 (a / b)\<rfloor>\<close> for positive \<open>a\<close>, \<open>b\<close>\<close>
  "floor_log10 a b =
     (if b \<le> a then int (length (digits_of (a div b))) - 1
      else let k = length (digits_of (b div a))
           in if b \<le> a * 10 ^ (k - 1) then 1 - int k else - int k)"

definition round_trips :: "pyfloat \<Rightarrow> int \<Rightarrow> int \<Rightarrow> bool" where
  \<comment> \<open>reading the decimal \<open>d * 10^p\<close> gives back \<open>x\<close>\<close>
  "round_trips x d p = (to_double (d * 10 ^ nat p) (10 ^ nat (- p)) = Some x)"

definition candidates :: "nat \<Rightarrow> int \<Rightarrow> int \<Rightarrow> int \<times> int list" where
  \<comment> \<open>the exponent \<open>p\<close> of the last of \<open>n\<close> significant digits of \<open>a / b\<close>, and the two
      \<open>n\<close>-digit decimals \<open>d * 10^p\<close> around \<open>a / b\<close>, the nearer one first\<close>
  "candidates n a b =
     (let p = floor_log10 a b - (int n - 1);
          num = a * 10 ^ nat (- p);
          den = b * 10 ^ nat p;
          lo = num div den;
          r = num mod den
      in (p, if 2 * r < den \<or> (2 * r = den \<and> even lo) then [lo, lo + 1] else [lo + 1, lo]))"

primrec shortest_from :: "nat \<Rightarrow> nat \<Rightarrow> pyfloat \<Rightarrow> int \<Rightarrow> int \<Rightarrow> int \<times> int" where
  \<comment> \<open>the decimal \<open>(d, p)\<close>, meaning \<open>d * 10^p\<close>, with the fewest significant digits (from
      \<open>n\<close> on) that reads back as \<open>x = a / b\<close>, the nearer to \<open>x\<close> where two of one length
      do; seventeen digits always suffice\<close>
  "shortest_from 0 n x a b = (case candidates n a b of (p, near) \<Rightarrow> (hd near, p))"
| "shortest_from (Suc fuel) n x a b =
     (case candidates n a b of (p, near) \<Rightarrow>
        (case filter (\<lambda>d. round_trips x d p) near of
           d # _ \<Rightarrow> (d, p)
         | [] \<Rightarrow> shortest_from fuel (Suc n) x a b))"

function strip_zeros :: "int \<Rightarrow> int \<Rightarrow> int \<times> int" where
  "strip_zeros d p = (if d \<noteq> 0 \<and> d mod 10 = 0 then strip_zeros (d div 10) (p + 1) else (d, p))"
  by pat_completeness auto
termination
  by (relation "measure (\<lambda>(d, p). nat \<bar>d\<bar>)") auto

declare strip_zeros.simps [simp del]

definition exponent_text :: "int \<Rightarrow> string" where
  \<comment> \<open>a signed exponent of at least two digits\<close>
  "exponent_text x =
     (if x < 0 then CHR ''-'' else CHR ''+'') #
     (if \<bar>x\<bar> < 10 then CHR ''0'' # digits_of \<bar>x\<bar> else digits_of \<bar>x\<bar>)"

definition repr_digits :: "string \<Rightarrow> int \<Rightarrow> string" where
  \<comment> \<open>the digits \<open>ds\<close> with the decimal point after the first \<open>decpt\<close> of them: the layout
      of \<open>repr\<close>, exponent notation below \<open>1e-4\<close> and from \<open>1e16\<close> on\<close>
  "repr_digits ds decpt =
     (if decpt \<le> - 4 \<or> 16 < decpt then
        [hd ds] @ (if tl ds = [] then [] else CHR ''.'' # tl ds) @
        CHR ''e'' # exponent_text (decpt - 1)
      else if decpt \<le> 0 then ''0.'' @ replicate (nat (- decpt)) CHR ''0'' @ ds
      else if int (length ds) \<le> decpt then
        ds @ replicate (nat decpt - length ds) CHR ''0'' @ ''.0''
      else take (nat decpt) ds @ CHR ''.'' # drop (nat decpt) ds)"

fun float_repr :: "pyfloat \<Rightarrow> string" where
  "float_repr PosInf = ''inf''"
| "float_repr NegInf = ''-inf''"
| "float_repr NaN = ''nan''"
| "float_repr (Finite m e) =
     (if m = 0 then ''0.0''
      else
        let (d, p) = shortest_from 16 1 (Finite \<bar>m\<bar> e) (\<bar>m\<bar> * 2 ^ nat e) (2 ^ nat (- e));
            (d', p') = strip_zeros d p;
            ds = digits_of d'
        in (if m < 0 then ''-'' else []) @ repr_digits ds (int (length ds) + p'))"

fun format_1f :: "pyfloat \<Rightarrow> string" where
  \<comment> \<open>\<open>f"{x:.1f}"\<close>: the exact value of \<open>x\<close> rounded half-even to one decimal\<close>
  "format_1f PosInf = ''inf''"
| "format_1f NegInf = ''-inf''"
| "format_1f NaN = ''nan''"
| "format_1f (Finite m e) =
     (let t = round_half_even (\<bar>m\<bar> * 10 * 2 ^ nat e) (2 ^ nat (- e))
      in (if m < 0 then ''-'' else []) @ digits_of (t div 10) @ CHR ''.'' # digits_of (t mod 10))"

subsection \<open>Numbers and the four operators\<close>

datatype pyval = PyInt int | PyFloat pyfloat

fun as_float :: "pyval \<Rightarrow> exc + pyfloat" where
  "as_float (PyInt n) = int_to_float n"
| "as_float (PyFloat x) = Inr x"

definition float_op :: "(pyfloat \<Rightarrow> pyfloat \<Rightarrow> exc + pyfloat) \<Rightarrow> pyval \<Rightarrow> pyval \<Rightarrow> exc + pyval" where
  \<comment> \<open>an operation with a float operand: both operands become floats, the left one first\<close>
  "float_op f v w =
     (case as_float v of
        Inl e \<Rightarrow> Inl e
      | Inr x \<Rightarrow>
          (case as_float w of
             Inl e \<Rightarrow> Inl e
           | Inr y \<Rightarrow> (case f x y of Inl e \<Rightarrow> Inl e | Inr z \<Rightarrow> Inr (PyFloat z))))"

fun py_add :: "pyval \<Rightarrow> pyval \<Rightarrow> exc + pyval" where
  "py_add (PyInt a) (PyInt b) = Inr (PyInt (a + b))"
| "py_add v w = float_op (\<lambda>x y. Inr (float_add x y)) v w"

fun py_sub :: "pyval \<Rightarrow> pyval \<Rightarrow> exc + pyval" where
  "py_sub (PyInt a) (PyInt b) = Inr (PyInt (a - b))"
| "py_sub v w = float_op (\<lambda>x y. Inr (float_sub x y)) v w"

fun py_mul :: "pyval \<Rightarrow> pyval \<Rightarrow> exc + pyval" where
  "py_mul (PyInt a) (PyInt b) = Inr (PyInt (a * b))"
| "py_mul v w = float_op (\<lambda>x y. Inr (float_mul x y)) v w"

fun py_truediv :: "pyval \<Rightarrow> pyval \<Rightarrow> exc + pyval" where
  "py_truediv (PyInt a) (PyInt b) =
     (case int_truediv a b of Inl e \<Rightarrow> Inl e | Inr x \<Rightarrow> Inr (PyFloat x))"
| "py_truediv v w = float_op float_truediv v w"

fun py_str :: "pyval \<Rightarrow> string" where
  "py_str (PyInt n) = str_int n"
| "py_str (PyFloat x) = float_repr x"

fun py_format_1f :: "pyval \<Rightarrow> exc + string" where
  "py_format_1f (PyFloat x) = Inr (format_1f x)"
| "py_format_1f (PyInt n) = (case int_to_float n of Inl e \<Rightarrow> Inl e | Inr x \<Rightarrow> Inr (format_1f x))"

subsection \<open>\<open>str.lower\<close> and \<open>str.title\<close>\<close>

definition ascii_upper :: string where
  "ascii_upper = ''ABCDEFGHIJKLMNOPQRSTUVWXYZ''"

definition ascii_lower :: string where
  "ascii_lower = ''abcdefghijklmnopqrstuvwxyz''"

definition latin_upper :: string where
  \<comment> \<open>U+00C0 to U+00DE without the multiplication sign U+00D7\<close>
  "latin_upper =
     [CHR 0xC0, CHR 0xC1, CHR 0xC2, CHR 0xC3, CHR 0xC4, CHR 0xC5, CHR 0xC6, CHR 0xC7,
      CHR 0xC8, CHR 0xC9, CHR 0xCA, CHR 0xCB, CHR 0xCC, CHR 0xCD, CHR 0xCE, CHR 0xCF,
      CHR 0xD0, CHR 0xD1, CHR 0xD2, CHR 0xD3, CHR 0xD4, CHR 0xD5, CHR 0xD6,
      CHR 0xD8, CHR 0xD9, CHR 0xDA, CHR 0xDB, CHR 0xDC, CHR 0xDD, CHR 0xDE]"

definition latin_lower :: string where
  "latin_lower =
     [CHR 0xE0, CHR 0xE1, CHR 0xE2, CHR 0xE3, CHR 0xE4, CHR 0xE5, CHR 0xE6, CHR 0xE7,
      CHR 0xE8, CHR 0xE9, CHR 0xEA, CHR 0xEB, CHR 0xEC, CHR 0xED, CHR 0xEE, CHR 0xEF,
      CHR 0xF0, CHR 0xF1, CHR 0xF2, CHR 0xF3, CHR 0xF4, CHR 0xF5, CHR 0xF6,
      CHR 0xF8, CHR 0xF9, CHR 0xFA, CHR 0xFB, CHR 0xFC, CHR 0xFD, CHR 0xFE]"

definition lower_char :: "char \<Rightarrow> char" where
  "lower_char c =
     (case map_of (zip (ascii_upper @ latin_upper) (ascii_lower @ latin_lower)) c of
        Some l \<Rightarrow> l
      | None \<Rightarrow> c)"

definition lower :: "string \<Rightarrow> string" where
  "lower s = map lower_char s"

definition upper_char :: "char \<Rightarrow> char" where
  "upper_char c = (case map_of (zip ascii_lower ascii_upper) c of Some u \<Rightarrow> u | None \<Rightarrow> c)"

fun title_from :: "bool \<Rightarrow> string \<Rightarrow> string" where
  \<comment> \<open>\<open>cased\<close>: the character before was a letter\<close>
  "title_from cased [] = []"
| "title_from cased (c # cs) =
     (if c \<in> set ascii_lower then (if cased then c else upper_char c) # title_from True cs
      else if c \<in> set ascii_upper then (if cased then lower_char c else c) # title_from True cs
      else c # title_from False cs)"

definition title :: "string \<Rightarrow> string" where
  \<comment> \<open>\<open>str.title\<close> on ASCII letters; the program applies it to a member of \<open>CHOICES\<close> only\<close>
  "title s = title_from False s"

section \<open>Rock-Paper-Scissors (\<open>rock_paper_scissors.py\<close>)\<close>

definition CHOICES :: "string list" where
  "CHOICES = [''rock'', ''paper'', ''scissors'']"

definition wins_over :: "string \<rightharpoonup> string" where
  "wins_over = [''rock'' \<mapsto> ''scissors'', ''paper'' \<mapsto> ''rock'', ''scissors'' \<mapsto> ''paper'']"

definition decide_winner :: "string \<Rightarrow> string \<Rightarrow> string" where
  "decide_winner player computer =
     (let p = lower player; c = lower computer
      in if p = c then ''tie''
         else if wins_over p = Some c then ''win'' else ''lose'')"

text \<open>
  The state of \<open>RPSApp\<close>: the four counters and the texts of the four Tk variables.
\<close>

record rps_app =
  player_score :: int
  computer_score :: int
  ties :: int
  total_rounds :: int
  score_var :: string
  detailed_stats_var :: string
  result_var :: string
  computer_var :: string

text \<open>
  What a handler did besides changing the state: it returned, it showed the modal error
  box (title, message) and returned, or an exception left it, the state being as the
  statements before the raise made it.
\<close>

datatype outcome = Returned | ShowError string string | Raised exc

definition format_score :: "rps_app \<Rightarrow> string" where
  \<comment> \<open>\<open>RPSApp._format_score\<close>\<close>
  "format_score s =
     ''Player: '' @ str_int (player_score s) @ ''   Computer: '' @ str_int (computer_score s)"

definition win_rate :: "rps_app \<Rightarrow> exc + pyval" where
  \<comment> \<open>\<open>(self.player_score / self.total_rounds) * 100\<close>\<close>
  "win_rate s =
     (case py_truediv (PyInt (player_score s)) (PyInt (total_rounds s)) of
        Inl e \<Rightarrow> Inl e
      | Inr q \<Rightarrow> py_mul q (PyInt 100))"

definition format_detailed_stats :: "rps_app \<Rightarrow> exc + string" where
  \<comment> \<open>\<open>RPSApp._format_detailed_stats\<close>\<close>
  "format_detailed_stats s =
     (if total_rounds s = 0 then
        Inr ''Wins: 0 | Losses: 0 | Ties: 0 | Total: 0 | Win Rate: 0.0%''
      else
        case win_rate s of
          Inl e \<Rightarrow> Inl e
        | Inr w \<Rightarrow>
            (case py_format_1f w of
               Inl e \<Rightarrow> Inl e
             | Inr rate \<Rightarrow>
                 Inr (''Wins: '' @ str_int (player_score s) @
                      '' | Losses: '' @ str_int (computer_score s) @
                      '' | Ties: '' @ str_int (ties s) @
                      '' | Total: '' @ str_int (total_rounds s) @
                      '' | Win Rate: '' @ rate @ ''%'')))"

definition win_message :: string where
  \<comment> \<open>the text ends with U+1F389\<close>
  "win_message = ''You win this round! '' @ [CHR 0xF0, CHR 0x9F, CHR 0x8E, CHR 0x89]"

definition lose_message :: string where
  \<comment> \<open>the text ends with U+1F622\<close>
  "lose_message = ''You lose this round. '' @ [CHR 0xF0, CHR 0x9F, CHR 0x98, CHR 0xA2]"

definition tie_message :: string where
  \<comment> \<open>the text ends with U+1F610\<close>
  "tie_message = ''It's a tie. '' @ [CHR 0xF0, CHR 0x9F, CHR 0x98, CHR 0x90]"

definition init_app :: rps_app where
  \<comment> \<open>\<open>RPSApp.__init__\<close>: the two score texts are the two formatters at the zeroed counters\<close>
  "init_app =
     \<lparr>player_score = 0, computer_score = 0, ties = 0, total_rounds = 0,
      score_var = ''Player: 0   Computer: 0'',
      detailed_stats_var = ''Wins: 0 | Losses: 0 | Ties: 0 | Total: 0 | Win Rate: 0.0%'',
      result_var = ''Make your move!'',
      computer_var = ''Computer hasn't played yet.''\<rparr>"

definition set_detailed_stats :: "rps_app \<Rightarrow> outcome \<times> rps_app" where
  \<comment> \<open>\<open>self.detailed_stats_var.set(self._format_detailed_stats())\<close>\<close>
  "set_detailed_stats s =
     (case format_detailed_stats s of
        Inl e \<Rightarrow> (Raised e, s)
      | Inr d \<Rightarrow> (Returned, s\<lparr>detailed_stats_var := d\<rparr>))"

definition play :: "string \<Rightarrow> nat \<Rightarrow> rps_app \<Rightarrow> outcome \<times> rps_app" where
  \<comment> \<open>\<open>RPSApp.play\<close>; \<open>r\<close> is the index \<open>random.choice\<close> draws in \<open>CHOICES\<close>\<close>
  "play player_choice r s =
     (if player_choice \<notin> set CHOICES then
        (ShowError ''Invalid move''
           ([CHR 0x27] @ player_choice @ [CHR 0x27] @ '' is not a valid choice.''), s)
      else
        let computer_choice = CHOICES ! (r mod 3);
            outcome = decide_winner player_choice computer_choice;
            s = s\<lparr>total_rounds := total_rounds s + 1\<rparr>;
            s = (if outcome = ''win'' then
                   s\<lparr>player_score := player_score s + 1, result_var := win_message\<rparr>
                 else if outcome = ''lose'' then
                   s\<lparr>computer_score := computer_score s + 1, result_var := lose_message\<rparr>
                 else
                   s\<lparr>ties := ties s + 1, result_var := tie_message\<rparr>);
            s = s\<lparr>computer_var := ''Computer chose: '' @ title computer_choice\<rparr>;
            s = s\<lparr>score_var := format_score s\<rparr>
        in set_detailed_stats s)"

definition reset_score :: "rps_app \<Rightarrow> outcome \<times> rps_app" where
  \<comment> \<open>\<open>RPSApp.reset_score\<close>\<close>
  "reset_score s =
     (let s = s\<lparr>player_score := 0, computer_score := 0, ties := 0, total_rounds := 0\<rparr>;
          s = s\<lparr>score_var := format_score s\<rparr>
      in case set_detailed_stats s of
           (Raised e, s) \<Rightarrow> (Raised e, s)
         | (_, s) \<Rightarrow>
             (Returned, s\<lparr>result_var := ''Scores reset. Make your move!'',
                            computer_var := ''Computer hasn't played yet.''\<rparr>))"

text \<open>
  A session is a list of the user's actions; the state after it is the handlers applied
  in turn, from \<open>init_app\<close>. (Tk reports an exception that leaves a handler and goes on
  with the state as it is.)
\<close>

datatype action = Play string nat | Reset

fun handle :: "rps_app \<Rightarrow> action \<Rightarrow> rps_app" where
  "handle s (Play player_choice r) = snd (play player_choice r s)"
| "handle s Reset = snd (reset_score s)"

definition session :: "action list \<Rightarrow> rps_app" where
  "session acts = foldl handle init_app acts"

subsection \<open>The session invariant and the specification's win rate\<close>

text \<open>
  The invariant of a session: the counters are non-negative, the total is their sum, and
  the two score texts show the counters as they are.
\<close>

definition consistent :: "rps_app \<Rightarrow> bool" where
  "consistent s \<longleftrightarrow>
     0 \<le> player_score s \<and> 0 \<le> computer_score s \<and> 0 \<le> ties s \<and>
     total_rounds s = player_score s + computer_score s + ties s \<and>
     score_var s = format_score s \<and>
     format_detailed_stats s = Inr (detailed_stats_var s)"

text \<open>
  The specification's win rate: \<open>wins / rounds * 100\<close> as an exact fraction, rounded to
  the nearest tenth, a tie between the tenths \<open>q\<close> and \<open>q + 1\<close> resolved by \<open>tie\<close>
  (\<open>half_up\<close>, \<open>half_down\<close> or \<open>half_even\<close>), printed with one decimal.
\<close>

definition half_up :: "int \<Rightarrow> int" where
  "half_up q = q + 1"

definition half_down :: "int \<Rightarrow> int" where
  "half_down q = q"

definition half_even :: "int \<Rightarrow> int" where
  "half_even q = (if even q then q else q + 1)"

definition spec_win_rate :: "(int \<Rightarrow> int) \<Rightarrow> int \<Rightarrow> int \<Rightarrow> string" where
  "spec_win_rate tie wins rounds =
     (let n = 1000 * wins; q = n div rounds; r = n mod rounds;
          tenths = (if 2 * r < rounds then q else if rounds < 2 * r then q + 1 else tie q)
      in digits_of (tenths div 10) @ ''.'' @ digits_of (tenths mod 10))"


section \<open>The calculator (\<open>calculator.py\<close>)\<close>

subsection \<open>\<open>eval\<close> on the calculator's expressions\<close>

text \<open>
  The handler passes its expression, with the two glyphs replaced, to Python's \<open>eval\<close>.
  The model of \<open>eval\<close> is of the texts the handler can build (\<open>calc_text\<close> below, lemma
  \<open>presses_calc_text\<close>): digits, the four operator characters and the marker \<open>=\<close>, the
  first character a digit, an operator followed by a digit or by nothing, the marker by
  an operator or by nothing. In such a text none of Python's two-character operators
  (\<open>**\<close>, \<open>//\<close>, \<open>==\<close>, \<open>+=\<close> and the like) and no unary operator can occur: every
  operator character and the marker is a token of its own, a run of digits is a decimal
  integer literal, and the grammar of an expression is
  \<open>sum: sum ('+' | '-') term | term\<close>, \<open>term: term ('*' | '/') NUMBER | NUMBER\<close>.
  The text is tokenized and parsed as a whole before anything is evaluated, and the
  marker \<open>=\<close> has no place in an expression.
\<close>

definition is_digit :: "char \<Rightarrow> bool" where
  "is_digit c \<longleftrightarrow> c \<in> set ''0123456789''"

datatype token = NUMBER string | OP char

function tokenize :: "string \<Rightarrow> exc + token list" where
  "tokenize [] = Inr []"
| "tokenize (c # cs) =
     (if is_digit c then
        (let ds = c # takeWhile is_digit cs
         in if c = CHR ''0'' \<and> (\<exists>d \<in> set ds. d \<noteq> CHR ''0'') then Inl SyntaxError
            else case tokenize (dropWhile is_digit cs) of
                   Inl e \<Rightarrow> Inl e
                 | Inr ts \<Rightarrow> Inr (NUMBER ds # ts))
      else if c \<in> set ''+-*/='' then
        (case tokenize cs of Inl e \<Rightarrow> Inl e | Inr ts \<Rightarrow> Inr (OP c # ts))
      else Inl SyntaxError)"
  by pat_completeness auto
termination
  by (relation "measure length") (auto simp: length_dropWhile_le le_imp_less_Suc)

declare tokenize.simps [simp del]

definition digit_value :: "char \<Rightarrow> int" where
  "digit_value c = int (length (takeWhile (\<lambda>d. d \<noteq> c) ''0123456789''))"

definition int_of_digits :: "string \<Rightarrow> int" where
  \<comment> \<open>the number a decimal numeral denotes\<close>
  "int_of_digits ds = foldl (\<lambda>n d. 10 * n + digit_value d) 0 ds"

datatype operator = Add | Sub | Mult | Div

datatype ast = Num int | BinOp ast operator ast

fun close_sum :: "(ast \<times> operator) option \<Rightarrow> ast \<Rightarrow> ast" where
  "close_sum None t = t"
| "close_sum (Some (l, opr)) t = BinOp l opr t"

fun parse_from :: "(ast \<times> operator) option \<Rightarrow> ast \<Rightarrow> token list \<Rightarrow> exc + ast" where
  \<comment> \<open>\<open>pending\<close>: the sum read so far and the \<open>+\<close> or \<open>-\<close> after it; \<open>t\<close>: the term
      being read\<close>
  "parse_from pending t [] = Inr (close_sum pending t)"
| "parse_from pending t (OP c # NUMBER ds # ts) =
     (if c = CHR ''*'' then parse_from pending (BinOp t Mult (Num (int_of_digits ds))) ts
      else if c = CHR ''/'' then parse_from pending (BinOp t Div (Num (int_of_digits ds))) ts
      else if c = CHR ''+'' then
        parse_from (Some (close_sum pending t, Add)) (Num (int_of_digits ds)) ts
      else if c = CHR ''-'' then
        parse_from (Some (close_sum pending t, Sub)) (Num (int_of_digits ds)) ts
      else Inl SyntaxError)"
| "parse_from pending t ts = Inl SyntaxError"

fun parse :: "token list \<Rightarrow> exc + ast" where
  "parse (NUMBER ds # ts) = parse_from None (Num (int_of_digits ds)) ts"
| "parse ts = Inl SyntaxError"

fun binop :: "operator \<Rightarrow> pyval \<Rightarrow> pyval \<Rightarrow> exc + pyval" where
  "binop Add v w = py_add v w"
| "binop Sub v w = py_sub v w"
| "binop Mult v w = py_mul v w"
| "binop Div v w = py_truediv v w"

fun eval_ast :: "ast \<Rightarrow> exc + pyval" where
  "eval_ast (Num n) = Inr (PyInt n)"
| "eval_ast (BinOp l opr r) =
     (case eval_ast l of
        Inl e \<Rightarrow> Inl e
      | Inr v \<Rightarrow> (case eval_ast r of Inl e \<Rightarrow> Inl e | Inr w \<Rightarrow> binop opr v w))"

definition py_eval :: "string \<Rightarrow> exc + pyval" where
  "py_eval s =
     (case tokenize s of
        Inl e \<Rightarrow> Inl e
      | Inr ts \<Rightarrow> (case parse ts of Inl e \<Rightarrow> Inl e | Inr a \<Rightarrow> eval_ast a))"

subsection \<open>The handler\<close>

definition times_sign :: char where
  \<comment> \<open>U+00D7\<close>
  "times_sign = CHR 0xD7"

definition division_sign :: char where
  \<comment> \<open>U+00F7\<close>
  "division_sign = CHR 0xF7"

definition operator_chars :: string where
  \<comment> \<open>the literal of the two membership tests of the operator branch\<close>
  "operator_chars = [CHR ''+'', CHR ''-'', times_sign, division_sign]"

definition replace :: "char \<Rightarrow> char \<Rightarrow> string \<Rightarrow> string" where
  \<comment> \<open>\<open>str.replace\<close> of one character by one character\<close>
  "replace a b s = map (\<lambda>c. if c = a then b else c) s"

definition endswith :: "string \<Rightarrow> char \<Rightarrow> bool" where
  "endswith s c \<longleftrightarrow> s \<noteq> [] \<and> last s = c"

text \<open>
  The state of \<open>CalculatorApp\<close>: the expression and the text of the entry's variable.
\<close>

record calculator =
  expression :: string
  input_var :: string

definition init_calc :: calculator where
  "init_calc = \<lparr>expression = [], input_var = ''0''\<rparr>"

definition on_button_click :: "char \<Rightarrow> calculator \<Rightarrow> calculator" where
  \<comment> \<open>\<open>CalculatorApp.on_button_click\<close>; the argument is the one-character text of one
      of the sixteen buttons, so \<open>char in "..."\<close> is membership\<close>
  "on_button_click c st =
     (if is_digit c then
        (let st = (if input_var st = ''0'' \<or> endswith (expression st) CHR ''=''
                   then st\<lparr>expression := [c]\<rparr>
                   else st\<lparr>expression := expression st @ [c]\<rparr>)
         in st\<lparr>input_var := expression st\<rparr>)
      else if c \<in> set operator_chars then
        (if expression st \<noteq> [] \<and> last (expression st) \<notin> set operator_chars then
           (let st = st\<lparr>expression := expression st @ [c]\<rparr>
            in st\<lparr>input_var := expression st\<rparr>)
         else st)
      else if c = CHR ''C'' then
        st\<lparr>expression := [], input_var := ''0''\<rparr>
      else if c = CHR ''='' then
        (let expr = replace division_sign CHR ''/'' (replace times_sign CHR ''*'' (expression st))
         in case py_eval expr of
              Inr v \<Rightarrow> st\<lparr>input_var := py_str v, expression := expression st @ ''=''\<rparr>
            | Inl e \<Rightarrow> st\<lparr>input_var := ''Error'', expression := []\<rparr>)
      else st)"

definition presses :: "string \<Rightarrow> calculator" where
  \<comment> \<open>the state after a sequence of button presses, from the initial state\<close>
  "presses cs = foldl (\<lambda>st c. on_button_click c st) init_calc cs"

fun well_spaced :: "string \<Rightarrow> bool" where
  \<comment> \<open>an operator is followed by a digit, the marker \<open>=\<close> by an operator\<close>
  "well_spaced (a # b # s) \<longleftrightarrow>
     (a \<in> set operator_chars \<longrightarrow> is_digit b) \<and>
     (a = CHR ''='' \<longrightarrow> b \<in> set operator_chars) \<and>
     well_spaced (b # s)"
| "well_spaced s \<longleftrightarrow> True"

definition calc_text :: "string \<Rightarrow> bool" where
  \<comment> \<open>what the handler writes into its expression\<close>
  "calc_text s \<longleftrightarrow>
     set s \<subseteq> set ''0123456789='' \<union> set operator_chars \<and>
     (s = [] \<or> is_digit (hd s)) \<and> well_spaced s"

subsection \<open>The specification's arithmetic\<close>











subsection \<open>Notions for the proofs\<close>




section \<open>Properties of Rock-Paper-Scissors\<close>

subsection \<open>Floats of a fraction\<close>

lemma bit_length_mono: "a \<le> b \<Longrightarrow> bit_length a \<le> bit_length b"
proof (induction a arbitrary: b rule: bit_length.induct)
  case (1 n)
  show ?case
  proof (cases "n \<le> 0")
    case True
    then show ?thesis by (simp add: bit_length.simps [of n])
  next
    case False
    with 1 have "bit_length (n div 2) \<le> bit_length (b div 2)"
      by (simp add: zdiv_mono1)
    with False 1 show ?thesis
      by (simp add: bit_length.simps [of n] bit_length.simps [of b])
  qed
qed

lemma floor_log2_le_0: "a \<le> b \<Longrightarrow> floor_log2 a b \<le> 0"
  using bit_length_mono [of a b] by (simp add: floor_log2_def Let_def)

lemma to_double_fraction: "0 \<le> a \<Longrightarrow> a \<le> b \<Longrightarrow> \<exists>x. to_double a b = Some x"
proof -
  assume a: "0 \<le> a" "a \<le> b"
  then have "max (floor_log2 \<bar>a\<bar> b) (- 1022) \<le> 0"
    using floor_log2_le_0 [of a b] by simp
  then show ?thesis
    by (auto simp: to_double_def Let_def max_def split: if_splits)
qed

lemma int_truediv_fraction:
  "0 \<le> p \<Longrightarrow> p \<le> t \<Longrightarrow> 0 < t \<Longrightarrow> \<exists>x. int_truediv p t = Inr x"
  using to_double_fraction [of p t] by (auto simp: int_truediv_def)

lemma float_100: "int_to_float 100 = Inr (Finite 25 2)"
  by (simp add: int_to_float_def to_double_def floor_log2_def bit_length.simps round_half_even_def normalise.simps Let_def)

lemma win_rate_fraction:
  "0 \<le> player_score s \<Longrightarrow> player_score s \<le> total_rounds s \<Longrightarrow> 0 < total_rounds s \<Longrightarrow>
   \<exists>x. int_truediv (player_score s) (total_rounds s) = Inr x \<and>
       win_rate s = Inr (PyFloat (float_mul x (Finite 25 2)))"
  using int_truediv_fraction [of "player_score s" "total_rounds s"]
  by (auto simp: win_rate_def float_op_def float_100)

subsection \<open>The winner, an invalid choice, the reset\<close>

lemma lower_choices:
  "lower ''rock'' = ''rock''" "lower ''paper'' = ''paper''" "lower ''scissors'' = ''scissors''"
  by (simp_all add: lower_def lower_char_def ascii_upper_def ascii_lower_def latin_upper_def latin_lower_def)

lemma decide_winner_choices:
  "decide_winner ''rock'' ''rock'' = ''tie''"
  "decide_winner ''rock'' ''paper'' = ''lose''"
  "decide_winner ''rock'' ''scissors'' = ''win''"
  "decide_winner ''paper'' ''rock'' = ''win''"
  "decide_winner ''paper'' ''paper'' = ''tie''"
  "decide_winner ''paper'' ''scissors'' = ''lose''"
  "decide_winner ''scissors'' ''rock'' = ''lose''"
  "decide_winner ''scissors'' ''paper'' = ''win''"
  "decide_winner ''scissors'' ''scissors'' = ''tie''"
  by (simp_all add: decide_winner_def lower_choices wins_over_def)

text \<open>
  Claim C2. Applied to two valid choices, \<open>decide_winner\<close> returns \<open>tie\<close> exactly when
  the choices are equal; it returns \<open>win\<close> exactly on rock against scissors, paper
  against rock and scissors against paper, and \<open>lose\<close> exactly on the three reversed
  pairs; for distinct choices exactly one of \<open>decide_winner a b\<close> and
  \<open>decide_winner b a\<close> is \<open>win\<close>.
\<close>

theorem decide_winner_cyclic:
  assumes "a \<in> set CHOICES" and "b \<in> set CHOICES"
  shows "(decide_winner a b = ''tie'' \<longleftrightarrow> a = b) \<and>
         (decide_winner a b = ''win'' \<longleftrightarrow>
            (a, b) \<in> {(''rock'', ''scissors''), (''paper'', ''rock''), (''scissors'', ''paper'')}) \<and>
         (decide_winner a b = ''lose'' \<longleftrightarrow>
            (b, a) \<in> {(''rock'', ''scissors''), (''paper'', ''rock''), (''scissors'', ''paper'')}) \<and>
         (a \<noteq> b \<longrightarrow> (decide_winner a b = ''win'') \<noteq> (decide_winner b a = ''win''))"
proof -
  from assms have "a = ''rock'' \<or> a = ''paper'' \<or> a = ''scissors''"
    and "b = ''rock'' \<or> b = ''paper'' \<or> b = ''scissors''"
    by (simp_all add: CHOICES_def)
  then show ?thesis
    by (elim disjE) (simp_all add: decide_winner_choices)
qed

theorem decide_winner_cyclic_witness:
  "''rock'' \<in> set CHOICES \<and> ''scissors'' \<in> set CHOICES \<and>
   decide_winner ''rock'' ''scissors'' = ''win'' \<and>
   decide_winner ''scissors'' ''rock'' = ''lose'' \<and>
   decide_winner ''rock'' ''rock'' = ''tie''"
  using decide_winner_cyclic [of "''rock''" "''scissors''"]
    decide_winner_cyclic [of "''scissors''" "''rock''"]
    decide_winner_cyclic [of "''rock''" "''rock''"]
  by (simp add: CHOICES_def)

text \<open>
  Claim C5. For a \<open>player_choice\<close> that is none of the three choices, \<open>play\<close> shows
  the error box and returns with the state (the four counters and the four display
  texts) exactly as it was.
\<close>

theorem play_invalid_choice:
  assumes "player_choice \<notin> set CHOICES"
  shows "play player_choice r s =
           (ShowError ''Invalid move''
              ([CHR 0x27] @ player_choice @ [CHR 0x27] @ '' is not a valid choice.''), s) \<and>
         handle s (Play player_choice r) = s"
  using assms by (simp add: play_def)

theorem play_invalid_choice_witness:
  "''lizard'' \<notin> set CHOICES \<and>
   play ''lizard'' 0 init_app =
     (ShowError ''Invalid move'' '''lizard' is not a valid choice.'', init_app) \<and>
   play ''Rock'' 1 init_app =
     (ShowError ''Invalid move'' '''Rock' is not a valid choice.'', init_app)"
  using play_invalid_choice [of "''lizard''" 0 init_app]
    play_invalid_choice [of "''Rock''" 1 init_app]
  by (simp add: CHOICES_def)

lemma str_int_0: "str_int 0 = ''0''"
  by (simp add: str_int_def digits_of.simps digit_char_def)

lemma reset_score_eq:
  "reset_score s =
     (Returned,
      s\<lparr>player_score := 0, computer_score := 0, ties := 0, total_rounds := 0,
        score_var := ''Player: 0   Computer: 0'',
        detailed_stats_var := ''Wins: 0 | Losses: 0 | Ties: 0 | Total: 0 | Win Rate: 0.0%'',
        result_var := ''Scores reset. Make your move!'',
        computer_var := ''Computer hasn't played yet.''\<rparr>)"
  by (simp add: reset_score_def set_detailed_stats_def format_detailed_stats_def
      format_score_def str_int_0)

text \<open>
  Claim C8, as stated, fails on the round-result text: \<open>reset_score\<close> does not put
  back the initial placeholder \<open>Make your move!\<close> but writes
  \<open>Scores reset. Make your move!\<close>.
\<close>

theorem reset_score_placeholder_counterexample:
  "result_var (snd (reset_score init_app)) = ''Scores reset. Make your move!'' \<and>
   result_var init_app = ''Make your move!'' \<and>
   result_var (snd (reset_score init_app)) \<noteq> result_var init_app"
  by (simp add: reset_score_eq init_app_def)

text \<open>
  Claim C8, amended. From every state, \<open>reset_score\<close> returns with the four counters
  at zero, the score text and the computer-move text as they were initially, the
  statistics line reading a win rate of \<open>0.0%\<close>, and the round-result text
  \<open>Scores reset. Make your move!\<close>.
\<close>

theorem reset_score_zeroes:
  "fst (reset_score s) = Returned \<and>
   player_score (snd (reset_score s)) = 0 \<and>
   computer_score (snd (reset_score s)) = 0 \<and>
   ties (snd (reset_score s)) = 0 \<and>
   total_rounds (snd (reset_score s)) = 0 \<and>
   score_var (snd (reset_score s)) = score_var init_app \<and>
   detailed_stats_var (snd (reset_score s)) =
     ''Wins: 0 | Losses: 0 | Ties: 0 | Total: 0 | Win Rate: 0.0%'' \<and>
   result_var (snd (reset_score s)) = ''Scores reset. Make your move!'' \<and>
   computer_var (snd (reset_score s)) = computer_var init_app"
  by (simp add: reset_score_eq init_app_def)

subsection \<open>Sessions\<close>

lemma format_detailed_stats_display [simp]:
  "format_detailed_stats (s\<lparr>detailed_stats_var := d\<rparr>) = format_detailed_stats s"
  "format_detailed_stats (s\<lparr>score_var := v\<rparr>) = format_detailed_stats s"
  "format_detailed_stats (s\<lparr>result_var := v\<rparr>) = format_detailed_stats s"
  "format_detailed_stats (s\<lparr>computer_var := v\<rparr>) = format_detailed_stats s"
  by (simp_all add: format_detailed_stats_def win_rate_def cong: sum.case_cong if_cong)

lemma format_score_display [simp]:
  "format_score (s\<lparr>detailed_stats_var := d\<rparr>) = format_score s"
  "format_score (s\<lparr>score_var := v\<rparr>) = format_score s"
  "format_score (s\<lparr>result_var := v\<rparr>) = format_score s"
  "format_score (s\<lparr>computer_var := v\<rparr>) = format_score s"
  "format_score (s\<lparr>ties := n\<rparr>) = format_score s"
  "format_score (s\<lparr>total_rounds := n\<rparr>) = format_score s"
  by (simp_all add: format_score_def)

lemma format_detailed_stats_returns:
  assumes "0 \<le> player_score s" and "player_score s \<le> total_rounds s"
  shows "\<exists>d. format_detailed_stats s = Inr d"
proof (cases "total_rounds s = 0")
  case True
  then show ?thesis by (simp add: format_detailed_stats_def)
next
  case False
  with assms have "0 < total_rounds s" by simp
  with assms obtain x where "win_rate s = Inr (PyFloat (float_mul x (Finite 25 2)))"
    using win_rate_fraction [of s] by blast
  with False show ?thesis by (simp add: format_detailed_stats_def)
qed

lemma set_detailed_stats_counters [simp]:
  "player_score (snd (set_detailed_stats s)) = player_score s"
  "computer_score (snd (set_detailed_stats s)) = computer_score s"
  "ties (snd (set_detailed_stats s)) = ties s"
  "total_rounds (snd (set_detailed_stats s)) = total_rounds s"
  "score_var (snd (set_detailed_stats s)) = score_var s"
  "result_var (snd (set_detailed_stats s)) = result_var s"
  "computer_var (snd (set_detailed_stats s)) = computer_var s"
  by (simp_all add: set_detailed_stats_def split: sum.splits)

lemma set_detailed_stats_consistent:
  assumes "0 \<le> player_score s" and "0 \<le> computer_score s" and "0 \<le> ties s"
    and "total_rounds s = player_score s + computer_score s + ties s"
    and "score_var s = format_score s"
  shows "fst (set_detailed_stats s) = Returned \<and> consistent (snd (set_detailed_stats s))"
proof -
  from assms obtain d where d: "format_detailed_stats s = Inr d"
    using format_detailed_stats_returns [of s] by auto
  then have "set_detailed_stats s = (Returned, s\<lparr>detailed_stats_var := d\<rparr>)"
    by (simp add: set_detailed_stats_def)
  with assms d show ?thesis by (simp add: consistent_def)
qed

lemma play_consistent:
  assumes "consistent s"
  shows "fst (play player_choice r s) \<noteq> Raised e \<and> consistent (snd (play player_choice r s))"
proof (cases "player_choice \<in> set CHOICES")
  case False
  with assms show ?thesis by (simp add: play_def)
next
  case True
  have "fst (set_detailed_stats t) = Returned \<and> consistent (snd (set_detailed_stats t))"
    if "t = u\<lparr>computer_var := c, score_var := format_score u\<rparr>"
      and "0 \<le> player_score u" and "0 \<le> computer_score u" and "0 \<le> ties u"
      and "total_rounds u = player_score u + computer_score u + ties u" for t u c
    using that by (intro set_detailed_stats_consistent) simp_all
  with assms True show ?thesis
    by (simp add: play_def Let_def consistent_def)
qed

lemma reset_score_consistent: "consistent (snd (reset_score s))"
  by (simp add: reset_score_eq consistent_def format_score_def format_detailed_stats_def str_int_0)

lemma init_app_consistent: "consistent init_app"
  by (simp add: init_app_def consistent_def format_score_def format_detailed_stats_def str_int_0)

lemma handle_consistent: "consistent s \<Longrightarrow> consistent (handle s a)"
  by (cases a) (simp_all add: play_consistent reset_score_consistent)

lemma foldl_handle_consistent: "consistent s \<Longrightarrow> consistent (foldl handle s acts)"
  by (induction acts arbitrary: s) (simp_all add: handle_consistent)

lemma session_consistent: "consistent (session acts)"
  by (simp add: session_def foldl_handle_consistent init_app_consistent)

lemmas float_eval =
  int_truediv_def int_to_float_def to_double_def floor_log2_def bit_length.simps
  round_half_even_def normalise.simps round_scaled_def round_or_inf_def float_op_def Let_def

lemmas text_eval = str_int_def digits_of.simps digit_char_def

lemma title_choices:
  "title ''rock'' = ''Rock''" "title ''paper'' = ''Paper''" "title ''scissors'' = ''Scissors''"
  by (simp_all add: title_def ascii_lower_def ascii_upper_def upper_char_def)

lemma play_win:
  "player_score (snd (play ''rock'' 2 s)) = player_score s + 1"
  "computer_score (snd (play ''rock'' 2 s)) = computer_score s"
  "ties (snd (play ''rock'' 2 s)) = ties s"
  "total_rounds (snd (play ''rock'' 2 s)) = total_rounds s + 1"
  by (simp_all add: play_def CHOICES_def Let_def decide_winner_choices)

lemma play_loss:
  "player_score (snd (play ''rock'' (Suc 0) s)) = player_score s"
  "computer_score (snd (play ''rock'' (Suc 0) s)) = computer_score s + 1"
  "ties (snd (play ''rock'' (Suc 0) s)) = ties s"
  "total_rounds (snd (play ''rock'' (Suc 0) s)) = total_rounds s + 1"
  by (simp_all add: play_def CHOICES_def Let_def decide_winner_choices)

lemma wins_in_a_row:
  "player_score (foldl handle s (replicate n (Play ''rock'' 2))) = player_score s + int n \<and>
   computer_score (foldl handle s (replicate n (Play ''rock'' 2))) = computer_score s \<and>
   ties (foldl handle s (replicate n (Play ''rock'' 2))) = ties s \<and>
   total_rounds (foldl handle s (replicate n (Play ''rock'' 2))) = total_rounds s + int n"
  by (induction n arbitrary: s) (simp_all add: play_win)

lemma losses_in_a_row:
  "player_score (foldl handle s (replicate n (Play ''rock'' (Suc 0)))) = player_score s \<and>
   computer_score (foldl handle s (replicate n (Play ''rock'' (Suc 0)))) = computer_score s + int n \<and>
   ties (foldl handle s (replicate n (Play ''rock'' (Suc 0)))) = ties s \<and>
   total_rounds (foldl handle s (replicate n (Play ''rock'' (Suc 0)))) = total_rounds s + int n"
  by (induction n arbitrary: s) (simp_all add: play_loss)

lemma wins_then_losses:
  "player_score (session (replicate w (Play ''rock'' 2) @ replicate l (Play ''rock'' 1))) = int w"
  "computer_score (session (replicate w (Play ''rock'' 2) @ replicate l (Play ''rock'' 1))) = int l"
  "ties (session (replicate w (Play ''rock'' 2) @ replicate l (Play ''rock'' 1))) = 0"
  "total_rounds (session (replicate w (Play ''rock'' 2) @ replicate l (Play ''rock'' 1))) = int w + int l"
  by (simp_all add: session_def wins_in_a_row losses_in_a_row init_app_def)

lemma stats_23_of_80:
  assumes "player_score s = 23" and "computer_score s = 57" and "ties s = 0"
    and "total_rounds s = 80"
  shows "format_detailed_stats s =
           Inr ''Wins: 23 | Losses: 57 | Ties: 0 | Total: 80 | Win Rate: 28.7%''"
  using assms by (simp add: format_detailed_stats_def win_rate_def float_eval float_100 text_eval)

lemma stats_49_of_80:
  assumes "player_score s = 49" and "computer_score s = 31" and "ties s = 0"
    and "total_rounds s = 80"
  shows "format_detailed_stats s =
           Inr ''Wins: 49 | Losses: 31 | Ties: 0 | Total: 80 | Win Rate: 61.3%''"
  using assms by (simp add: format_detailed_stats_def win_rate_def float_eval float_100 text_eval)

text \<open>
  Claim C3, amended. After every session (plays with any choice and any draw, and
  resets, from the initial state) \<open>total_rounds\<close> is the sum of the three other
  counters, and the statistics line shows the counters as they are: with no round played
  its win rate reads \<open>0.0%\<close>; otherwise the division \<open>player_score / total_rounds\<close>
  returns a float \<open>x\<close> and the win rate shown is the float product \<open>x * 100\<close> printed
  with one decimal.
\<close>

theorem session_counters_and_display:
  "total_rounds (session acts) =
     player_score (session acts) + computer_score (session acts) + ties (session acts) \<and>
   format_detailed_stats (session acts) = Inr (detailed_stats_var (session acts)) \<and>
   (total_rounds (session acts) = 0 \<longrightarrow>
      detailed_stats_var (session acts) =
        ''Wins: 0 | Losses: 0 | Ties: 0 | Total: 0 | Win Rate: 0.0%'') \<and>
   (total_rounds (session acts) \<noteq> 0 \<longrightarrow>
      (\<exists>x. int_truediv (player_score (session acts)) (total_rounds (session acts)) = Inr x \<and>
           detailed_stats_var (session acts) =
             ''Wins: '' @ str_int (player_score (session acts)) @
             '' | Losses: '' @ str_int (computer_score (session acts)) @
             '' | Ties: '' @ str_int (ties (session acts)) @
             '' | Total: '' @ str_int (total_rounds (session acts)) @
             '' | Win Rate: '' @ format_1f (float_mul x (Finite 25 2)) @ ''%''))"
proof -
  define s where "s = session acts"
  have c: "consistent s"
    by (simp add: s_def session_consistent)
  then have sum: "total_rounds s = player_score s + computer_score s + ties s"
    and shown: "format_detailed_stats s = Inr (detailed_stats_var s)"
    and nonneg: "0 \<le> player_score s" "0 \<le> computer_score s" "0 \<le> ties s"
    by (simp_all add: consistent_def)
  have zero: "detailed_stats_var s = ''Wins: 0 | Losses: 0 | Ties: 0 | Total: 0 | Win Rate: 0.0%''"
    if "total_rounds s = 0"
    using that shown by (simp add: format_detailed_stats_def)
  have rate: "\<exists>x. int_truediv (player_score s) (total_rounds s) = Inr x \<and>
           detailed_stats_var s =
             ''Wins: '' @ str_int (player_score s) @
             '' | Losses: '' @ str_int (computer_score s) @
             '' | Ties: '' @ str_int (ties s) @
             '' | Total: '' @ str_int (total_rounds s) @
             '' | Win Rate: '' @ format_1f (float_mul x (Finite 25 2)) @ ''%''"
    if "total_rounds s \<noteq> 0"
  proof -
    from that sum nonneg have "0 < total_rounds s" "player_score s \<le> total_rounds s"
      by simp_all
    with nonneg obtain x where x: "int_truediv (player_score s) (total_rounds s) = Inr x"
      and w: "win_rate s = Inr (PyFloat (float_mul x (Finite 25 2)))"
      using win_rate_fraction [of s] by blast
    from that w shown x show ?thesis
      by (simp add: format_detailed_stats_def)
  qed
  from sum shown zero rate show ?thesis
    unfolding s_def by blast
qed

theorem session_counters_and_display_witness:
  "total_rounds (session [Play ''rock'' 2]) = 1 \<and>
   player_score (session [Play ''rock'' 2]) = 1 \<and>
   detailed_stats_var (session [Play ''rock'' 2]) =
     ''Wins: 1 | Losses: 0 | Ties: 0 | Total: 1 | Win Rate: 100.0%'' \<and>
   total_rounds (session []) = 0 \<and>
   detailed_stats_var (session []) =
     ''Wins: 0 | Losses: 0 | Ties: 0 | Total: 0 | Win Rate: 0.0%''"
proof -
  define s where "s = session [Play ''rock'' 2]"
  have c: "total_rounds s = 1" "player_score s = 1" "computer_score s = 0" "ties s = 0"
    by (simp_all add: s_def session_def play_win init_app_def)
  then have "format_detailed_stats s =
      Inr ''Wins: 1 | Losses: 0 | Ties: 0 | Total: 1 | Win Rate: 100.0%''"
    by (simp add: format_detailed_stats_def win_rate_def float_eval float_100 text_eval)
  moreover have "format_detailed_stats s = Inr (detailed_stats_var s)"
    using session_counters_and_display [of "[Play ''rock'' 2]"] by (simp add: s_def)
  moreover have "total_rounds (session []) = 0"
    by (simp add: session_def init_app_def)
  moreover have "detailed_stats_var (session []) =
      ''Wins: 0 | Losses: 0 | Ties: 0 | Total: 0 | Win Rate: 0.0%''"
    using session_counters_and_display [of "[]"] by (simp add: session_def init_app_def)
  ultimately show ?thesis
    using c by (simp add: s_def)
qed

text \<open>
  Claim C3, as stated, fails on the rounding, whichever way a tie is resolved. After 23
  wins and 57 losses the exact rate is 28.75, which rounds to 28.8 half-up and half-even
  alike, and the line shows 28.7, the float product being just below 28.75; after 49
  wins and 31 losses the exact rate is 61.25, which rounds to 61.2 half-down, and the
  line shows 61.3.
\<close>

theorem win_rate_rounding_counterexample:
  "player_score (session (replicate 23 (Play ''rock'' 2) @ replicate 57 (Play ''rock'' 1))) = 23 \<and>
   total_rounds (session (replicate 23 (Play ''rock'' 2) @ replicate 57 (Play ''rock'' 1))) = 80 \<and>
   detailed_stats_var (session (replicate 23 (Play ''rock'' 2) @ replicate 57 (Play ''rock'' 1))) =
     ''Wins: 23 | Losses: 57 | Ties: 0 | Total: 80 | Win Rate: 28.7%'' \<and>
   spec_win_rate half_up 23 80 = ''28.8'' \<and>
   spec_win_rate half_even 23 80 = ''28.8'' \<and>
   player_score (session (replicate 49 (Play ''rock'' 2) @ replicate 31 (Play ''rock'' 1))) = 49 \<and>
   total_rounds (session (replicate 49 (Play ''rock'' 2) @ replicate 31 (Play ''rock'' 1))) = 80 \<and>
   detailed_stats_var (session (replicate 49 (Play ''rock'' 2) @ replicate 31 (Play ''rock'' 1))) =
     ''Wins: 49 | Losses: 31 | Ties: 0 | Total: 80 | Win Rate: 61.3%'' \<and>
   spec_win_rate half_down 49 80 = ''61.2''"
proof -
  define s where "s = session (replicate 23 (Play ''rock'' 2) @ replicate 57 (Play ''rock'' 1))"
  define u where "u = session (replicate 49 (Play ''rock'' 2) @ replicate 31 (Play ''rock'' 1))"
  have c: "player_score s = 23" "computer_score s = 57" "ties s = 0" "total_rounds s = 80"
    using wins_then_losses [of 23 57] by (simp_all add: s_def)
  have d: "player_score u = 49" "computer_score u = 31" "ties u = 0" "total_rounds u = 80"
    using wins_then_losses [of 49 31] by (simp_all add: u_def)
  have "consistent s" "consistent u"
    by (simp_all add: s_def u_def session_consistent)
  then have "format_detailed_stats s = Inr (detailed_stats_var s)"
    and "format_detailed_stats u = Inr (detailed_stats_var u)"
    by (simp_all add: consistent_def)
  with c d have "detailed_stats_var s =
      ''Wins: 23 | Losses: 57 | Ties: 0 | Total: 80 | Win Rate: 28.7%''"
    and "detailed_stats_var u =
      ''Wins: 49 | Losses: 31 | Ties: 0 | Total: 80 | Win Rate: 61.3%''"
    by (simp_all add: stats_23_of_80 stats_49_of_80)
  moreover have "spec_win_rate half_up 23 80 = ''28.8''" "spec_win_rate half_even 23 80 = ''28.8''"
    "spec_win_rate half_down 49 80 = ''61.2''"
    by (simp_all add: spec_win_rate_def half_up_def half_even_def half_down_def text_eval Let_def)
  ultimately show ?thesis
    using c d unfolding s_def u_def by simp
qed

section \<open>Properties of the calculator\<close>

subsection \<open>Operator presses\<close>

lemmas calc_eval =
  on_button_click_def presses_def init_calc_def is_digit_def operator_chars_def times_sign_def
  division_sign_def replace_def endswith_def py_eval_def tokenize.simps int_of_digits_def
  digit_value_def Let_def

lemma operator_not_digit: "c \<in> set operator_chars \<Longrightarrow> \<not> is_digit c"
  by (auto simp: operator_chars_def is_digit_def times_sign_def division_sign_def)

text \<open>
  Claim C7. In every state, a press of an operator button while the expression is empty
  or ends with an operator changes nothing; in particular, with the expression \<open>3+\<close>,
  a press of any operator, the same or another, leaves the state as it is.
\<close>

theorem operator_press_ignored:
  assumes "c \<in> set operator_chars"
  shows "(expression st = [] \<or> last (expression st) \<in> set operator_chars \<longrightarrow>
            on_button_click c st = st) \<and>
         on_button_click c \<lparr>expression = ''3+'', input_var = d\<rparr> =
           \<lparr>expression = ''3+'', input_var = d\<rparr>"
  using assms operator_not_digit [of c]
  by (auto simp: on_button_click_def operator_chars_def)

theorem operator_press_ignored_witness:
  "CHR ''-'' \<in> set operator_chars \<and>
   presses ''3+'' = \<lparr>expression = ''3+'', input_var = ''3+''\<rparr> \<and>
   presses ''3+-'' = \<lparr>expression = ''3+'', input_var = ''3+''\<rparr> \<and>
   presses ''3++'' = \<lparr>expression = ''3+'', input_var = ''3+''\<rparr> \<and>
   on_button_click CHR ''-'' init_calc = init_calc"
proof -
  have a: "presses ''3+'' = \<lparr>expression = ''3+'', input_var = ''3+''\<rparr>"
    by (simp add: calc_eval)
  have b: "presses (''3+'' @ [c]) = on_button_click c (presses ''3+'')" for c
    by (simp add: presses_def)
  have m: "CHR ''-'' \<in> set operator_chars" "CHR ''+'' \<in> set operator_chars"
    by (simp_all add: operator_chars_def)
  have "expression init_calc = []"
    by (simp add: init_calc_def)
  with a m show ?thesis
    using operator_press_ignored [of "CHR ''-''" init_calc]
      operator_press_ignored [of "CHR ''-''" "presses ''3+''"]
      operator_press_ignored [of "CHR ''+''" "presses ''3+''"]
      b [of "CHR ''-''"] b [of "CHR ''+''"]
    by simp
qed

subsection \<open>What cannot be evaluated\<close>

lemma tokenize_error: "tokenize s = Inl e \<Longrightarrow> e = SyntaxError"
proof (induction s rule: length_induct)
  case (1 s)
  show ?case
  proof (cases s)
    case Nil
    with "1.prems" show ?thesis by (simp add: tokenize.simps)
  next
    case (Cons c cs)
    have "length (dropWhile is_digit cs) < length s" "length cs < length s"
      using Cons by (simp_all add: length_dropWhile_le le_imp_less_Suc)
    with "1.IH" have "tokenize (dropWhile is_digit cs) = Inl e \<Longrightarrow> e = SyntaxError"
      and "tokenize cs = Inl e \<Longrightarrow> e = SyntaxError"
      by blast+
    with "1.prems" Cons show ?thesis
      by (auto simp: tokenize.simps(2) Let_def split: if_splits sum.splits)
  qed
qed

lemma parse_from_error: "parse_from pending t ts = Inl e \<Longrightarrow> e = SyntaxError"
  by (induction pending t ts rule: parse_from.induct) (auto split: if_splits)

lemma parse_error: "parse ts = Inl e \<Longrightarrow> e = SyntaxError"
  by (cases ts rule: parse.cases) (auto dest: parse_from_error)

lemma dropWhile_keeps_last:
  "s \<noteq> [] \<Longrightarrow> \<not> P (last s) \<Longrightarrow> dropWhile P s \<noteq> [] \<and> last (dropWhile P s) = last s"
  by (induction s) auto

lemma tokenize_last:
  "tokenize s = Inr ts \<Longrightarrow> s \<noteq> [] \<Longrightarrow> \<not> is_digit (last s) \<Longrightarrow>
   ts \<noteq> [] \<and> last ts = OP (last s)"
proof (induction s arbitrary: ts rule: length_induct)
  case (1 s)
  from "1.prems" obtain c cs where s: "s = c # cs"
    by (cases s) auto
  have shorter: "length (dropWhile is_digit cs) < length s" "length cs < length s"
    using s by (simp_all add: length_dropWhile_le le_imp_less_Suc)
  show ?case
  proof (cases "is_digit c")
    case True
    with "1.prems" s obtain ts' where ts': "tokenize (dropWhile is_digit cs) = Inr ts'"
      and ts: "ts = NUMBER (c # takeWhile is_digit cs) # ts'"
      by (auto simp: tokenize.simps(2) Let_def split: if_splits sum.splits)
    from True "1.prems" s have cs: "cs \<noteq> []" "last s = last cs" "\<not> is_digit (last cs)"
      by (auto split: if_splits)
    then have d: "dropWhile is_digit cs \<noteq> []" "last (dropWhile is_digit cs) = last cs"
      using dropWhile_keeps_last [of cs is_digit] by simp_all
    with ts' cs shorter "1.IH" have "ts' \<noteq> [] \<and> last ts' = OP (last cs)"
      by (metis d)
    with ts cs show ?thesis by simp
  next
    case False
    with "1.prems" s obtain ts' where ts': "tokenize cs = Inr ts'" and ts: "ts = OP c # ts'"
      by (auto simp: tokenize.simps(2) split: if_splits sum.splits)
    show ?thesis
    proof (cases "cs = []")
      case True
      with ts' ts s show ?thesis by (simp add: tokenize.simps)
    next
      case nonempty: False
      with "1.prems" s have "\<not> is_digit (last cs)" by simp
      with ts' nonempty shorter "1.IH" have "ts' \<noteq> [] \<and> last ts' = OP (last cs)"
        by blast
      with ts nonempty s show ?thesis by simp
    qed
  qed
qed

lemma parse_from_last:
  "parse_from pending t ts = Inr a \<Longrightarrow> ts \<noteq> [] \<Longrightarrow> \<exists>ds. last ts = NUMBER ds"
  by (induction pending t ts rule: parse_from.induct) (auto split: if_splits)

lemma parse_last: "parse ts = Inr a \<Longrightarrow> ts \<noteq> [] \<and> (\<exists>ds. last ts = NUMBER ds)"
  by (cases ts rule: parse.cases) (auto dest: parse_from_last)

lemma py_eval_needs_final_digit:
  assumes "s = [] \<or> \<not> is_digit (last s)"
  shows "py_eval s = Inl SyntaxError"
proof (cases "tokenize s")
  case (Inl e)
  then show ?thesis
    using tokenize_error [of s e] by (simp add: py_eval_def)
next
  case (Inr ts)
  have "parse ts = Inl SyntaxError"
  proof (cases "parse ts")
    case (Inl e)
    then show ?thesis using parse_error [of ts e] by simp
  next
    case ok: (Inr a)
    then have last: "ts \<noteq> []" "\<exists>ds. last ts = NUMBER ds"
      using parse_last [of ts a] by simp_all
    show ?thesis
    proof (cases "s = []")
      case True
      with Inr last show ?thesis by (simp add: tokenize.simps)
    next
      case False
      with assms Inr have "last ts = OP (last s)"
        using tokenize_last [of s ts] by simp
      with last show ?thesis by auto
    qed
  qed
  with Inr show ?thesis by (simp add: py_eval_def)
qed

lemma replace_last:
  "s \<noteq> [] \<Longrightarrow> last (replace a b s) = (if last s = a then b else last s)"
  by (simp add: replace_def last_map)

lemma evaluate_text_final:
  assumes "e = [] \<or> \<not> is_digit (last e)"
  shows "py_eval (replace division_sign CHR ''/'' (replace times_sign CHR ''*'' e)) =
           Inl SyntaxError"
proof -
  let ?s = "replace division_sign CHR ''/'' (replace times_sign CHR ''*'' e)"
  have "?s = [] \<or> \<not> is_digit (last ?s)"
  proof (cases "e = []")
    case True
    then show ?thesis by (simp add: replace_def)
  next
    case False
    then have "replace times_sign CHR ''*'' e \<noteq> []"
      by (simp add: replace_def)
    with False assms show ?thesis
      by (auto simp: replace_last is_digit_def times_sign_def division_sign_def)
  qed
  then show ?thesis by (rule py_eval_needs_final_digit)
qed

subsection \<open>The press of \<open>=\<close>\<close>

lemma presses_snoc: "presses (cs @ [c]) = on_button_click c (presses cs)"
  by (simp add: presses_def)

lemma is_digit_not_button:
  "is_digit c \<Longrightarrow> c \<notin> set operator_chars \<and> c \<noteq> CHR ''C'' \<and> c \<noteq> CHR ''=''"
  by (auto simp: operator_chars_def is_digit_def times_sign_def division_sign_def)

lemma equals_not_operator: "\<not> is_digit CHR ''=''" "CHR ''='' \<notin> set operator_chars"
  by (simp_all add: operator_chars_def is_digit_def times_sign_def division_sign_def)

lemma press_equals:
  "on_button_click CHR ''='' st =
     (case py_eval (replace division_sign CHR ''/'' (replace times_sign CHR ''*'' (expression st))) of
        Inr v \<Rightarrow> \<lparr>expression = expression st @ ''='', input_var = py_str v\<rparr>
      | Inl e \<Rightarrow> \<lparr>expression = [], input_var = ''Error''\<rparr>)"
  by (simp add: on_button_click_def equals_not_operator split: sum.splits)

lemma presses_5_div_0:
  "presses (''5'' @ [division_sign] @ ''0'') =
     \<lparr>expression = ''5'' @ [division_sign] @ ''0'', input_var = ''5'' @ [division_sign] @ ''0''\<rparr>"
  by (simp add: calc_eval)

lemma eval_5_div_0: "py_eval ''5/0'' = Inl ZeroDivisionError"
  by (simp add: calc_eval int_truediv_def)

text \<open>
  Claim C4. In every state, if the evaluation raises (whatever the exception), the
  press of \<open>=\<close> sets the display to \<open>Error\<close> and empties the expression. The empty
  expression and every expression ending with an operator do raise, and so does the
  division by zero of \<open>5\<div>0\<close>.
\<close>

theorem evaluate_failure:
  "(py_eval (replace division_sign CHR ''/'' (replace times_sign CHR ''*'' (expression st))) = Inl e \<longrightarrow>
      on_button_click CHR ''='' st = \<lparr>expression = [], input_var = ''Error''\<rparr>) \<and>
   (expression st = [] \<longrightarrow>
      on_button_click CHR ''='' st = \<lparr>expression = [], input_var = ''Error''\<rparr>) \<and>
   (expression st \<noteq> [] \<and> last (expression st) \<in> set operator_chars \<longrightarrow>
      on_button_click CHR ''='' st = \<lparr>expression = [], input_var = ''Error''\<rparr>) \<and>
   on_button_click CHR ''='' \<lparr>expression = ''5'' @ [division_sign] @ ''0'', input_var = d\<rparr> =
     \<lparr>expression = [], input_var = ''Error''\<rparr>"
proof -
  have "on_button_click CHR ''='' st = \<lparr>expression = [], input_var = ''Error''\<rparr>"
    if "expression st = [] \<or> \<not> is_digit (last (expression st))"
    using evaluate_text_final [OF that] by (simp add: press_equals)
  moreover have "\<not> is_digit (last (expression st))" if "last (expression st) \<in> set operator_chars"
    using that by (rule operator_not_digit)
  moreover have "on_button_click CHR ''='' \<lparr>expression = ''5'' @ [division_sign] @ ''0'', input_var = d\<rparr> =
     \<lparr>expression = [], input_var = ''Error''\<rparr>"
    using eval_5_div_0 by (simp add: press_equals replace_def division_sign_def times_sign_def)
  ultimately show ?thesis
    by (auto simp: press_equals)
qed

theorem evaluate_failure_witness:
  "py_eval (replace division_sign CHR ''/'' (replace times_sign CHR ''*'' (expression (presses ''1+05'')))) =
     Inl SyntaxError \<and>
   presses ''1+05='' = \<lparr>expression = [], input_var = ''Error''\<rparr> \<and>
   expression init_calc = [] \<and>
   presses ''='' = \<lparr>expression = [], input_var = ''Error''\<rparr> \<and>
   expression (presses ''3+'') \<noteq> [] \<and> last (expression (presses ''3+'')) \<in> set operator_chars \<and>
   presses ''3+='' = \<lparr>expression = [], input_var = ''Error''\<rparr> \<and>
   presses (''5'' @ [division_sign] @ ''0='') = \<lparr>expression = [], input_var = ''Error''\<rparr>"
proof -
  have a: "presses ''1+05'' = \<lparr>expression = ''1+05'', input_var = ''1+05''\<rparr>"
    by (simp add: calc_eval)
  have b: "py_eval (replace division_sign CHR ''/'' (replace times_sign CHR ''*'' ''1+05'')) = Inl SyntaxError"
    by (simp add: calc_eval)
  have c: "presses ''3+'' = \<lparr>expression = ''3+'', input_var = ''3+''\<rparr>"
    by (simp add: calc_eval)
  have d: "presses [] = init_calc"
    by (simp add: presses_def)
  have e: "expression init_calc = []"
    by (simp add: init_calc_def)
  have f: "last ''3+'' \<in> set operator_chars"
    by (simp add: operator_chars_def)
  show ?thesis
    using evaluate_failure [of "presses ''1+05''" SyntaxError]
      evaluate_failure [of init_calc]
      evaluate_failure [of "presses ''3+''"]
      evaluate_failure [of _ _ "''5'' @ [division_sign] @ ''0''"]
      presses_snoc [of "''1+05''" "CHR ''=''"] presses_snoc [of "[]" "CHR ''=''"]
      presses_snoc [of "''3+''" "CHR ''=''"]
      presses_snoc [of "''5'' @ [division_sign] @ ''0''" "CHR ''=''"]
      presses_5_div_0 a b c d e f
    by simp
qed

lemma presses_12_plus_8:
  "presses ''12'' = \<lparr>expression = ''12'', input_var = ''12''\<rparr>"
  "presses ''12+'' = \<lparr>expression = ''12+'', input_var = ''12+''\<rparr>"
  "presses ''12+8'' = \<lparr>expression = ''12+8'', input_var = ''12+8''\<rparr>"
  by (simp_all add: calc_eval)

lemma eval_12_plus_8: "py_eval ''12+8'' = Inr (PyInt 20)"
  by (simp add: calc_eval)

lemma str_20: "py_str (PyInt 20) = ''20''"
  by (simp add: str_int_def digits_of.simps digit_char_def)

text \<open>
  Claim C6. In every state, if the evaluation returns a value, the press of \<open>=\<close> sets the
  display to the text of the value and appends the marker \<open>=\<close> to the expression, which
  is otherwise kept; a digit pressed next replaces the expression. The presses
  \<open>1 2 + 8 =\<close> leave the display \<open>20\<close> and the expression \<open>12+8=\<close>.
\<close>

theorem evaluate_success:
  "(py_eval (replace division_sign CHR ''/'' (replace times_sign CHR ''*'' (expression st))) = Inr v \<longrightarrow>
      on_button_click CHR ''='' st =
        \<lparr>expression = expression st @ ''='', input_var = py_str v\<rparr> \<and>
      (is_digit c \<longrightarrow>
         on_button_click c (on_button_click CHR ''='' st) = \<lparr>expression = [c], input_var = [c]\<rparr>)) \<and>
   presses ''12+8='' = \<lparr>expression = ''12+8='', input_var = ''20''\<rparr>"
proof -
  have "presses ''12+8='' = on_button_click CHR ''='' (presses ''12+8'')"
    using presses_snoc [of "''12+8''" "CHR ''=''"] by simp
  then have "presses ''12+8='' = \<lparr>expression = ''12+8='', input_var = ''20''\<rparr>"
    using eval_12_plus_8 str_20
    by (simp add: presses_12_plus_8 press_equals replace_def division_sign_def times_sign_def)
  then show ?thesis
    by (simp add: press_equals) (simp add: on_button_click_def endswith_def)
qed

theorem evaluate_success_witness:
  "py_eval (replace division_sign CHR ''/'' (replace times_sign CHR ''*'' (expression (presses ''12+8'')))) =
     Inr (PyInt 20) \<and>
   is_digit CHR ''7'' \<and>
   on_button_click CHR ''='' (presses ''12+8'') = \<lparr>expression = ''12+8='', input_var = ''20''\<rparr> \<and>
   presses ''12+8=7'' = \<lparr>expression = ''7'', input_var = ''7''\<rparr>"
proof -
  have a: "py_eval (replace division_sign CHR ''/'' (replace times_sign CHR ''*'' (expression (presses ''12+8'')))) =
     Inr (PyInt 20)"
    using eval_12_plus_8
    by (simp add: presses_12_plus_8 replace_def division_sign_def times_sign_def)
  have b: "is_digit CHR ''7''"
    by (simp add: is_digit_def)
  have c: "presses ''12+8=7'' = on_button_click CHR ''7'' (on_button_click CHR ''='' (presses ''12+8''))"
    using presses_snoc [of "''12+8=''" "CHR ''7''"] presses_snoc [of "''12+8''" "CHR ''=''"]
    by simp
  from evaluate_success [of "presses ''12+8''" "PyInt 20" "CHR ''7''"] a b
  have d: "on_button_click CHR ''='' (presses ''12+8'') =
      \<lparr>expression = expression (presses ''12+8'') @ ''='', input_var = py_str (PyInt 20)\<rparr>"
    and e: "on_button_click CHR ''7'' (on_button_click CHR ''='' (presses ''12+8'')) =
      \<lparr>expression = ''7'', input_var = ''7''\<rparr>"
    by blast+
  from d have "on_button_click CHR ''='' (presses ''12+8'') =
      \<lparr>expression = ''12+8='', input_var = ''20''\<rparr>"
    using str_20 by (simp add: presses_12_plus_8)
  moreover from c e have "presses ''12+8=7'' = \<lparr>expression = ''7'', input_var = ''7''\<rparr>"
    by (simp only:)
  ultimately show ?thesis
    using a b by simp
qed

text \<open>
  Claim C10. A press of \<open>=\<close> on an expression that ends with the marker \<open>=\<close> sets the
  display to \<open>Error\<close> and empties the expression; so does a second press of \<open>=\<close> right
  after a successful one.
\<close>

theorem evaluate_after_result:
  "(endswith (expression st) CHR ''='' \<longrightarrow>
      on_button_click CHR ''='' st = \<lparr>expression = [], input_var = ''Error''\<rparr>) \<and>
   (py_eval (replace division_sign CHR ''/'' (replace times_sign CHR ''*'' (expression st))) = Inr v \<longrightarrow>
      on_button_click CHR ''='' (on_button_click CHR ''='' st) =
        \<lparr>expression = [], input_var = ''Error''\<rparr>)"
proof -
  have "on_button_click CHR ''='' t = \<lparr>expression = [], input_var = ''Error''\<rparr>"
    if "endswith (expression t) CHR ''=''" for t
  proof -
    from that have "\<not> is_digit (last (expression t))"
      by (simp add: endswith_def equals_not_operator)
    then show ?thesis
      using evaluate_text_final [of "expression t"] by (simp add: press_equals)
  qed
  moreover have "endswith (expression (on_button_click CHR ''='' st)) CHR ''=''"
    if "py_eval (replace division_sign CHR ''/'' (replace times_sign CHR ''*'' (expression st))) = Inr v"
    using that by (simp add: press_equals endswith_def)
  ultimately show ?thesis by blast
qed

theorem evaluate_after_result_witness:
  "endswith (expression (presses ''12+8='')) CHR ''='' \<and>
   presses ''12+8=='' = \<lparr>expression = [], input_var = ''Error''\<rparr> \<and>
   py_eval (replace division_sign CHR ''/'' (replace times_sign CHR ''*'' (expression (presses ''12+8'')))) =
     Inr (PyInt 20)"
proof -
  have a: "presses ''12+8='' = \<lparr>expression = ''12+8='', input_var = ''20''\<rparr>"
    using presses_snoc [of "''12+8''" "CHR ''=''"] eval_12_plus_8 str_20
    by (simp add: presses_12_plus_8 press_equals replace_def division_sign_def times_sign_def)
  have b: "py_eval (replace division_sign CHR ''/'' (replace times_sign CHR ''*'' (expression (presses ''12+8'')))) =
     Inr (PyInt 20)"
    using eval_12_plus_8
    by (simp add: presses_12_plus_8 replace_def division_sign_def times_sign_def)
  have c: "presses ''12+8=='' = on_button_click CHR ''='' (presses ''12+8='')"
    using presses_snoc [of "''12+8=''" "CHR ''=''"] by simp
  show ?thesis
    using evaluate_after_result [of "presses ''12+8=''"] a b c
    by (simp add: endswith_def)
qed

text \<open>
  Claim C9 (in every reachable state the marker \<open>=\<close> is the last character of the
  expression, never one in its middle) at the presses \<open>1 2 + 8 = +\<close>: the operator
  branch appends to an expression that ends with the marker, where the digit branch
  replaces it. The marker then stands before the last character, and stays there under
  further digits until the next evaluation fails.
\<close>

theorem equals_marker_mid_string:
  "presses ''12+8='' = \<lparr>expression = ''12+8='', input_var = ''20''\<rparr> \<and>
   presses ''12+8=+'' = \<lparr>expression = ''12+8=+'', input_var = ''12+8=+''\<rparr> \<and>
   presses ''12+8=+3'' = \<lparr>expression = ''12+8=+3'', input_var = ''12+8=+3''\<rparr> \<and>
   presses ''12+8=+3='' = \<lparr>expression = [], input_var = ''Error''\<rparr> \<and>
   last (expression (presses ''12+8=+'')) \<noteq> CHR ''='' \<and>
   CHR ''='' \<in> set (butlast (expression (presses ''12+8=+'')))"
proof -
  have a: "presses ''12+8='' = \<lparr>expression = ''12+8='', input_var = ''20''\<rparr>"
    using presses_snoc [of "''12+8''" "CHR ''=''"] eval_12_plus_8 str_20
    by (simp add: presses_12_plus_8 press_equals replace_def division_sign_def times_sign_def)
  have b: "presses ''12+8=+'' = \<lparr>expression = ''12+8=+'', input_var = ''12+8=+''\<rparr>"
    using presses_snoc [of "''12+8=''" "CHR ''+''"]
    by (simp add: a on_button_click_def is_digit_def operator_chars_def times_sign_def division_sign_def)
  have c: "presses ''12+8=+3'' = \<lparr>expression = ''12+8=+3'', input_var = ''12+8=+3''\<rparr>"
    using presses_snoc [of "''12+8=+''" "CHR ''3''"]
    by (simp add: b on_button_click_def is_digit_def endswith_def)
  have d: "presses ''12+8=+3='' = \<lparr>expression = [], input_var = ''Error''\<rparr>"
    using presses_snoc [of "''12+8=+3''" "CHR ''=''"]
    by (simp add: c press_equals calc_eval)
  from a b c d show ?thesis by simp
qed

subsection \<open>Sums of products\<close>



















subsection \<open>The texts the handler writes\<close>

lemma well_spaced_snoc:
  "well_spaced (s @ [c]) \<longleftrightarrow>
     well_spaced s \<and>
     (s \<noteq> [] \<longrightarrow>
        (last s \<in> set operator_chars \<longrightarrow> is_digit c) \<and>
        (last s = CHR ''='' \<longrightarrow> c \<in> set operator_chars))"
  by (induction s rule: well_spaced.induct) auto

lemma calc_text_snoc:
  "s \<noteq> [] \<Longrightarrow>
   calc_text (s @ [c]) \<longleftrightarrow>
     calc_text s \<and> c \<in> set ''0123456789='' \<union> set operator_chars \<and>
     (last s \<in> set operator_chars \<longrightarrow> is_digit c) \<and>
     (last s = CHR ''='' \<longrightarrow> c \<in> set operator_chars)"
  by (auto simp: calc_text_def well_spaced_snoc)

lemma calc_text_simple: "calc_text []" "is_digit c \<Longrightarrow> calc_text [c]"
  by (auto simp: calc_text_def is_digit_def)

lemma evaluated_ends_with_digit:
  assumes "py_eval (replace division_sign CHR ''/'' (replace times_sign CHR ''*'' e)) = Inr v"
  shows "e \<noteq> [] \<and> is_digit (last e)"
  using assms evaluate_text_final [of e] by auto

lemma on_button_click_calc_text:
  assumes "calc_text (expression st)"
  shows "calc_text (expression (on_button_click c st))"
proof -
  consider (digit) "is_digit c" | (operator) "c \<in> set operator_chars"
    | (clear) "c = CHR ''C''" | (equals) "c = CHR ''=''"
    | (other) "\<not> is_digit c" "c \<notin> set operator_chars" "c \<noteq> CHR ''C''" "c \<noteq> CHR ''=''"
    by blast
  then show ?thesis
  proof cases
    case digit
    then have mem: "c \<in> set ''0123456789='' \<union> set operator_chars"
      by (auto simp: is_digit_def)
    show ?thesis
    proof (cases "input_var st = ''0'' \<or> endswith (expression st) CHR ''='' \<or> expression st = []")
      case True
      with digit have "expression (on_button_click c st) = [c]"
        by (auto simp: on_button_click_def Let_def)
      with digit show ?thesis
        by (simp add: calc_text_simple)
    next
      case False
      with digit have "expression (on_button_click c st) = expression st @ [c]"
        by (simp add: on_button_click_def Let_def)
      moreover from False have "expression st \<noteq> []" "last (expression st) \<noteq> CHR ''=''"
        by (auto simp: endswith_def)
      ultimately show ?thesis
        using digit mem assms by (simp add: calc_text_snoc)
    qed
  next
    case operator
    with assms operator_not_digit [of c] show ?thesis
      by (auto simp: on_button_click_def Let_def calc_text_snoc)
  next
    case clear
    then show ?thesis
      by (simp add: on_button_click_def is_digit_def operator_chars_def times_sign_def
          division_sign_def calc_text_simple)
  next
    case equals
    show ?thesis
    proof (cases "py_eval (replace division_sign CHR ''/'' (replace times_sign CHR ''*'' (expression st)))")
      case (Inl e)
      with equals show ?thesis
        by (simp add: press_equals calc_text_simple)
    next
      case (Inr v)
      then have final: "expression st \<noteq> [] \<and> is_digit (last (expression st))"
        by (rule evaluated_ends_with_digit)
      then have "last (expression st) \<notin> set operator_chars" "last (expression st) \<noteq> CHR ''=''"
        using is_digit_not_button [of "last (expression st)"] by simp_all
      with Inr equals assms final show ?thesis
        by (simp add: press_equals calc_text_snoc)
    qed
  next
    case other
    with assms show ?thesis
      by (simp add: on_button_click_def)
  qed
qed

lemma presses_calc_text: "calc_text (expression (presses cs))"
proof (induction cs rule: rev_induct)
  case Nil
  then show ?case
    by (simp add: presses_def init_calc_def calc_text_simple)
next
  case (snoc c cs)
  then show ?case
    by (simp add: presses_snoc on_button_click_calc_text)
qed

end
